theory Spec2Isabelle
  imports Main "HOL-Library.Word"
begin

section \<open>The command ledger of miniccc (src/miniccc/command.go)\<close>

text \<open>
  Go's \<^verbatim>\<open>int\<close> is modelled as a 64-bit word (its width on the 64-bit platforms):
  \<open>+\<close> wraps around, as Go's signed addition does, and \<open>sint\<close> reads the value.
  Comparisons of the source (\<^verbatim>\<open>>\<close>, \<^verbatim>\<open>>=\<close>) are the signed ones, \<open><s\<close> and \<open>\<le>s\<close>.
  \<^verbatim>\<open>int64\<close> client identifiers and \<^verbatim>\<open>time.Duration\<close> (an int64 count of
  nanoseconds) are 64-bit words too.

  A \<^verbatim>\<open>time.Time\<close> is the instant it denotes, an integer number of nanoseconds since
  Go's zero time (January 1, year 1, 00:00:00 UTC); \<^verbatim>\<open>IsZero\<close> is equality with 0.
\<close>

type_synonym goint = "64 word"
type_synonym int64 = "64 word"
type_synonym Duration = "64 word"
type_synonym Time = int

definition MaxInt :: goint where
  "MaxInt = 0x7FFFFFFFFFFFFFFF"

definition IsZero :: "Time \<Rightarrow> bool" where
  "IsZero t = (t = 0)"

definition After :: "Time \<Rightarrow> Time \<Rightarrow> bool" where
  \<comment> \<open>\<^verbatim>\<open>t.After(u)\<close>: the instant t is strictly after u\<close>
  "After t u = (u < t)"

definition maxDuration :: int where
  "maxDuration = 2 ^ 63 - 1"

definition minDuration :: int where
  "minDuration = - (2 ^ 63)"

definition Sub :: "Time \<Rightarrow> Time \<Rightarrow> int" where
  \<comment> \<open>\<^verbatim>\<open>t.Sub(u)\<close>: the duration t - u, saturating at the ends of the int64 range\<close>
  "Sub t u = (if t - u > maxDuration then maxDuration
              else if t - u < minDuration then minDuration else t - u)"

subsection \<open>Data\<close>

definition COMMAND_EXEC :: goint where "COMMAND_EXEC = 0"
definition COMMAND_FILE_SEND :: goint where "COMMAND_FILE_SEND = 1"
definition COMMAND_FILE_RECV :: goint where "COMMAND_FILE_RECV = 2"
definition COMMAND_LOG :: goint where "COMMAND_LOG = 3"

text \<open>
  The struct \<^verbatim>\<open>Client\<close> is declared outside command.go; these are the fields that
  \<^verbatim>\<open>getFilter\<close> sets.
\<close>

record Client =
  CID :: int64
  Hostname :: string
  Arch :: string
  OS :: string
  OSVer :: string
  CSDVer :: string
  EditionID :: string
  IP :: "string list"
  MAC :: "string list"

record Command =
  ID :: goint
  Type :: goint
  Record :: bool
  Command :: "string list"
  FilesSend :: "string list"
  FilesRecv :: "string list"
  LogLevel :: string
  LogPath :: string
  Filter :: "Client list"
  checkedIn :: "int64 list"
  ExpireClients :: goint
  ExpireStarted :: Time
  ExpireDuration :: Duration
  ExpireTime :: Time

text \<open>
  The package-level variables \<^verbatim>\<open>commands\<close> and \<^verbatim>\<open>commandCounter\<close>. The map
  holds pointers; within this file a stored record is reached through the map only, and
  no slice is written through two live references, so records are values here. The two
  mutexes serialise the critical sections; each function below is one critical section
  (or a sequence of them run without interference).
\<close>

record state =
  commands :: "goint \<rightharpoonup> Command"
  commandCounter :: goint

subsection \<open>ID allocator\<close>

definition getCommandID :: "state \<Rightarrow> goint \<times> state" where
  "getCommandID s =
     (let s' = s\<lparr>commandCounter := commandCounter s + 1\<rparr>
      in (commandCounter s', s'))"

definition getMaxCommandID :: "state \<Rightarrow> goint" where
  "getMaxCommandID s = commandCounter s"

definition checkMaxCommandID :: "goint \<Rightarrow> state \<Rightarrow> state" where
  "checkMaxCommandID i s =
     (if commandCounter s <s i then s\<lparr>commandCounter := i\<rparr> else s)"

text \<open>
  Histories of the allocator: a finite sequence of calls of \<^verbatim>\<open>getCommandID\<close>
  (allocate) and \<^verbatim>\<open>checkMaxCommandID\<close> (reconcile), and the events it produces, one per
  call: the identifier an allocation returned, or the identifier that was reconciled.
\<close>

datatype call = Allocate | Reconcile goint
datatype event = Returned goint | Reconciled goint

fun ident :: "event \<Rightarrow> goint" where
  "ident (Returned i) = i"
| "ident (Reconciled x) = x"

fun run :: "call list \<Rightarrow> state \<Rightarrow> event list" where
  "run [] s = []"
| "run (Allocate # cs) s = (let (i, s') = getCommandID s in Returned i # run cs s')"
| "run (Reconcile x # cs) s = Reconciled x # run cs (checkMaxCommandID x s)"

text \<open>No allocation of the history increments a counter that holds the largest \<^verbatim>\<open>int\<close>.\<close>

fun no_wrap :: "call list \<Rightarrow> state \<Rightarrow> bool" where
  "no_wrap [] s = True"
| "no_wrap (Allocate # cs) s =
     (commandCounter s \<noteq> MaxInt \<and> no_wrap cs (snd (getCommandID s)))"
| "no_wrap (Reconcile x # cs) s = no_wrap cs (checkMaxCommandID x s)"

definition s0 :: state where
  \<comment> \<open>the state after \<^verbatim>\<open>init\<close>: no commands, counter 0\<close>
  "s0 = \<lparr>commands = Map.empty, commandCounter = 0\<rparr>"

subsection \<open>Expiry engine\<close>

text \<open>
  The test that \<^verbatim>\<open>expireReaper\<close> applies to one command \<open>v\<close>: \<open>now\<close> is the value of
  \<^verbatim>\<open>time.Now()\<close> taken at the start of the tick, \<open>clk\<close> the clock that
  \<^verbatim>\<open>time.Since\<close> reads when the command is examined. \<^verbatim>\<open>len(v.checkedIn)\<close> is a
  non-negative \<^verbatim>\<open>int\<close>.
\<close>

definition expired :: "Time \<Rightarrow> Time \<Rightarrow> Command \<Rightarrow> bool" where
  "expired now clk v =
     (if ExpireClients v \<noteq> 0 then sint (ExpireClients v) \<le> int (length (checkedIn v))
      else if ExpireDuration v \<noteq> 0 then sint (ExpireDuration v) < Sub clk (ExpireStarted v)
      else if \<not> IsZero (ExpireTime v) then After now (ExpireTime v)
      else False)"

text \<open>
  One tick of the reaper (the body of its endless loop, after the sleep). \<open>ks\<close> is the
  order in which \<^verbatim>\<open>range commands\<close> produces the keys, which Go leaves open; a key
  deleted before it is reached is not produced. \<open>clock k\<close> is the time read while key
  \<open>k\<close> is examined.
\<close>

fun reap :: "Time \<Rightarrow> (goint \<Rightarrow> Time) \<Rightarrow> goint list \<Rightarrow> (goint \<rightharpoonup> Command) \<Rightarrow> (goint \<rightharpoonup> Command)" where
  "reap now clock [] m = m"
| "reap now clock (k # ks) m =
     (case m k of
        None \<Rightarrow> reap now clock ks m
      | Some v \<Rightarrow> reap now clock ks (if expired now (clock k) v then m(k := None) else m))"

definition expireReaper :: "Time \<Rightarrow> (goint \<Rightarrow> Time) \<Rightarrow> goint list \<Rightarrow> state \<Rightarrow> state" where
  "expireReaper now clock ks s = s\<lparr>commands := reap now clock ks (commands s)\<rparr>"

text \<open>
  The removal rule in the words of the specification (section 4.3), with one \<open>now\<close>:
  count first (\<open>ExpireClients > 0\<close>), then duration (\<open>ExpireDuration > 0\<close>), then
  absolute time (\<open>now >= ExpireTime\<close>).
\<close>

definition spec_removed :: "Time \<Rightarrow> Command \<Rightarrow> bool" where
  "spec_removed now v =
     (if 0 <s ExpireClients v then sint (ExpireClients v) \<le> int (length (checkedIn v))
      else if 0 <s ExpireDuration v then sint (ExpireDuration v) < now - ExpireStarted v
      else if ExpireTime v \<noteq> 0 then ExpireTime v \<le> now
      else False)"

subsection \<open>Checkin tracker\<close>

definition commandCheckIn :: "goint \<Rightarrow> int64 \<Rightarrow> state \<Rightarrow> state" where
  "commandCheckIn i cid s =
     (case commands s i of
        Some c \<Rightarrow> s\<lparr>commands := (commands s)(i \<mapsto> c\<lparr>checkedIn := checkedIn c @ [cid]\<rparr>)\<rparr>
      | None \<Rightarrow> s)"

subsection \<open>Resubmission\<close>

text \<open>\<^verbatim>\<open>%v\<close> of an \<^verbatim>\<open>int\<close>: its decimal digits, with a minus sign when negative.\<close>

fun digits :: "nat \<Rightarrow> string" where
  "digits n = (if n < 10 then [''0123456789'' ! n]
               else digits (n div 10) @ [''0123456789'' ! (n mod 10)])"

declare digits.simps [simp del]

definition fmt_int :: "goint \<Rightarrow> string" where
  "fmt_int i = (if sint i < 0 then CHR ''-'' # digits (nat (- sint i)) else digits (nat (sint i)))"

text \<open>
  \<^verbatim>\<open>commandResubmit\<close> returns its message and the new state. The fields that the
  composite literal does not name keep Go's zero values: a nil \<^verbatim>\<open>checkedIn\<close>, 0 and the
  zero time.
\<close>

definition commandResubmit :: "goint \<Rightarrow> state \<Rightarrow> string \<times> state" where
  "commandResubmit i s =
     (case commands s i of
        Some c \<Rightarrow>
          (let (newid, s1) = getCommandID s;
               newcommand = \<lparr>ID = newid, Type = Type c, Record = Record c,
                  Command = Command c, FilesSend = FilesSend c, FilesRecv = FilesRecv c,
                  LogLevel = LogLevel c, LogPath = LogPath c, Filter = Filter c,
                  checkedIn = [], ExpireClients = 0, ExpireStarted = 0,
                  ExpireDuration = 0, ExpireTime = 0\<rparr>
           in (''command '' @ fmt_int i @ '' resubmitted as command '' @ fmt_int (ID newcommand),
               s1\<lparr>commands := (commands s1)(ID newcommand \<mapsto> newcommand)\<rparr>))
      | None \<Rightarrow> (''command '' @ fmt_int i @ '' not found'', s))"

subsection \<open>Merge processor\<close>

text \<open>
  The critical section of \<^verbatim>\<open>updateCommandQueueProcessor\<close> for one entry \<open>(k, v)\<close> of a
  received map: the checkin log of an entry already stored under \<open>k\<close> is copied into
  \<open>v\<close>, and \<open>v\<close> is stored under \<open>k\<close>. Before it, \<^verbatim>\<open>commandGetFiles\<close> fetches missing
  files; it reads and writes the file system only, neither \<^verbatim>\<open>commands\<close> nor
  \<^verbatim>\<open>commandCounter\<close>.
\<close>

definition updateCommand :: "goint \<Rightarrow> Command \<Rightarrow> state \<Rightarrow> state" where
  "updateCommand k v s =
     (let v' = (case commands s k of Some w \<Rightarrow> v\<lparr>checkedIn := checkedIn w\<rparr> | None \<Rightarrow> v)
      in s\<lparr>commands := (commands s)(k \<mapsto> v')\<rparr>)"

text \<open>
  One round of \<^verbatim>\<open>updateCommandQueueProcessor\<close>: the map \<open>c\<close> taken from the queue is
  given by its entries in the order \<^verbatim>\<open>range c\<close> produces them (the keys of a map are
  distinct).
\<close>

fun updateCommandQueueProcessor :: "(goint \<times> Command) list \<Rightarrow> state \<Rightarrow> state" where
  "updateCommandQueueProcessor [] s = s"
| "updateCommandQueueProcessor ((k, v) # c) s = updateCommandQueueProcessor c (updateCommand k v s)"

subsection \<open>Encoder\<close>

text \<open>
  \<^verbatim>\<open>encoding/gob\<close> transmits the exported fields of a struct only. \<^verbatim>\<open>checkedIn\<close> is the
  one field of \<^verbatim>\<open>Command\<close> with a lower-case name, so what the encoder reads of a command
  is the command without its checkin log. The encoder itself is a parameter: any function
  of what it reads, \<open>None\<close> when \<^verbatim>\<open>Encode\<close> returns an error.
\<close>

definition gob_fields :: "Command \<Rightarrow> Command" where
  "gob_fields v = v\<lparr>checkedIn := []\<rparr>"

definition encodeCommands :: "((goint \<rightharpoonup> Command) \<Rightarrow> 8 word list option) \<Rightarrow> state \<Rightarrow> 8 word list" where
  "encodeCommands gob s =
     (case gob (\<lambda>k. map_option gob_fields (commands s k)) of
        None \<Rightarrow> []
      | Some buf \<Rightarrow> buf)"

subsection \<open>Splitting a command line\<close>

text \<open>
  \<^verbatim>\<open>strings.Fields\<close> on a string of ASCII bytes: the maximal runs of bytes that are not
  white space (tab, line feed, vertical tab, form feed, carriage return, space). \<open>cur\<close>
  is the field being read.
\<close>

definition isSpace :: "char \<Rightarrow> bool" where
  "isSpace c = (c \<in> {CHR 0x09, CHR 0x0A, CHR 0x0B, CHR 0x0C, CHR 0x0D, CHR '' ''})"

fun fields_from :: "string \<Rightarrow> string \<Rightarrow> string list" where
  "fields_from cur [] = (if cur = [] then [] else [cur])"
| "fields_from cur (c # cs) =
     (if isSpace c then (if cur = [] then fields_from [] cs else cur # fields_from [] cs)
      else fields_from (cur @ [c]) cs)"

definition Fields :: "string \<Rightarrow> string list" where
  "Fields input = fields_from [] input"

definition HasPrefix :: "string \<Rightarrow> string \<Rightarrow> bool" where
  "HasPrefix s p = (length p \<le> length s \<and> take (length p) s = p)"

definition HasSuffix :: "string \<Rightarrow> string \<Rightarrow> bool" where
  "HasSuffix s p = (length p \<le> length s \<and> drop (length s - length p) s = p)"

definition dquote :: string where
  \<comment> \<open>the string literal \<^verbatim>\<open>"\""\<close>: one double quote\<close>
  "dquote = [CHR 0x22]"

text \<open>
  The loop of \<^verbatim>\<open>fieldsQuoteEscape\<close> over the fields \<open>f\<close>, with its variables
  \<open>trace\<close>, \<open>temp\<close> and \<open>ret\<close>. \<^verbatim>\<open>v[:len(v)-1]\<close> is \<open>take (length v - 1) v\<close> and
  \<^verbatim>\<open>v[1:]\<close> is \<open>drop 1 v\<close>; both are in range where the source evaluates them.
\<close>

fun fieldsQuoteEscape_loop :: "string list \<Rightarrow> bool \<Rightarrow> string \<Rightarrow> string list \<Rightarrow> string list" where
  "fieldsQuoteEscape_loop [] trace temp ret = ret"
| "fieldsQuoteEscape_loop (v # f) trace temp ret =
     (if trace then
        (if HasSuffix v dquote then
           (let temp' = temp @ '' '' @ take (length v - 1) v
            in fieldsQuoteEscape_loop f False temp' (ret @ [temp']))
         else fieldsQuoteEscape_loop f True (temp @ '' '' @ v) ret)
      else if HasPrefix v dquote then fieldsQuoteEscape_loop f True (drop 1 v) ret
      else fieldsQuoteEscape_loop f False temp (ret @ [v]))"

definition fieldsQuoteEscape :: "string \<Rightarrow> string list" where
  "fieldsQuoteEscape input = fieldsQuoteEscape_loop (Fields input) False [] []"

subsection \<open>New commands\<close>

text \<open>
  A request is its form: \<^verbatim>\<open>r.FormValue(key)\<close> is \<open>r key\<close>, the empty string for a key
  that is not there. The parsers of Go's library are parameters, each \<open>None\<close> where the
  Go function returns an error: \<^verbatim>\<open>strconv.Atoi\<close>, \<^verbatim>\<open>strconv.ParseInt(_, 10, 64)\<close>,
  \<^verbatim>\<open>time.ParseDuration\<close>, and \<^verbatim>\<open>time.Parse(time.Kitchen, _)\<close>, of whose result the
  handler reads hour, minute and second. With an error, the first three return 0 (or the
  handler sets 0) and \<^verbatim>\<open>time.Parse\<close> returns the zero time, whose hour, minute and second
  are 0.
\<close>

type_synonym Request = "string \<Rightarrow> string"

record stdlib =
  Atoi :: "string \<Rightarrow> goint option"
  ParseInt :: "string \<Rightarrow> int64 option"
  ParseDuration :: "string \<Rightarrow> Duration option"
  ParseKitchen :: "string \<Rightarrow> (nat \<times> nat \<times> nat) option"

definition nsPerDay :: int where
  "nsPerDay = 86400 * 1000000000"

text \<open>
  \<^verbatim>\<open>time.Date(now.Year(), now.Month(), now.Day(), h, m, sec, 0, now.Location())\<close> where
  the location is \<open>zone\<close> nanoseconds east of UTC: the start of \<open>now\<close>'s local day plus
  the time of day.
\<close>

definition Date_today :: "int \<Rightarrow> Time \<Rightarrow> nat \<Rightarrow> nat \<Rightarrow> nat \<Rightarrow> Time" where
  "Date_today zone now h m sec =
     ((now + zone) div nsPerDay) * nsPerDay - zone
       + (int h * 3600 + int m * 60 + int sec) * 1000000000"

definition getFilter :: "stdlib \<Rightarrow> Request \<Rightarrow> Client list" where
  "getFilter lib r =
     [\<lparr>CID = (case ParseInt lib (r ''filter_cid'') of Some n \<Rightarrow> n | None \<Rightarrow> 0),
       Hostname = r ''filter_hostname'',
       Arch = r ''filter_arch'',
       OS = r ''filter_os'',
       OSVer = r ''filter_osver'',
       CSDVer = r ''filter_csdver'',
       EditionID = r ''filter_editionid'',
       IP = Fields (r ''filter_ip''),
       MAC = Fields (r ''filter_mac'')\<rparr>]"

text \<open>What the handler writes back: one constructor for each text of \<^verbatim>\<open>resp\<close>.\<close>

datatype response =
    NoCommandSpecified
  | NoFilesSpecified
  | NoLogLevelSpecified
  | Submitted goint
  | NewCommandForm

text \<open>
  \<^verbatim>\<open>handleNewCommand\<close>: \<open>now\<close> is the clock read before the switch, \<open>started\<close> the clock
  read for \<^verbatim>\<open>ExpireStarted\<close>. The four cases build the command and store it under its
  identifier.
\<close>

definition store :: "Command \<Rightarrow> state \<Rightarrow> state" where
  \<comment> \<open>\<^verbatim>\<open>commands[c.ID] = c\<close>\<close>
  "store c s = s\<lparr>commands := (commands s)(ID c \<mapsto> c)\<rparr>"

definition handleNewCommand ::
  "stdlib \<Rightarrow> int \<Rightarrow> Time \<Rightarrow> Time \<Rightarrow> Request \<Rightarrow> state \<Rightarrow> response \<times> state" where
  "handleNewCommand lib zone now started r s =
     (let commandType = r ''type'';
          ec = r ''expire_responses'';
          ed = r ''expire_duration'';
          et = r ''expire_time'';
          expireClients = (case Atoi lib ec of Some n \<Rightarrow> n | None \<Rightarrow> 0);
          expireDuration = (case ParseDuration lib ed of Some d \<Rightarrow> d | None \<Rightarrow> 0);
          (h, m, sec) = (case ParseKitchen lib et of Some t \<Rightarrow> t | None \<Rightarrow> (0, 0, 0));
          expireTime = Date_today zone now h m sec;
          record = (r ''record'' = ''record'')
      in if commandType = ''exec'' then
           (if r ''command'' = [] then (NoCommandSpecified, s)
            else
              (let (i, s1) = getCommandID s;
                   c = \<lparr>ID = i, Type = COMMAND_EXEC, Record = record,
                        Command = fieldsQuoteEscape (r ''command''),
                        FilesSend = Fields (r ''filesend''),
                        FilesRecv = Fields (r ''filerecv''),
                        LogLevel = [], LogPath = [], Filter = getFilter lib r,
                        checkedIn = [], ExpireClients = expireClients,
                        ExpireStarted = started, ExpireDuration = expireDuration,
                        ExpireTime = expireTime\<rparr>
               in (Submitted (ID c), store c s1)))
         else if commandType = ''filesend'' then
           (if r ''filesend'' = [] then (NoFilesSpecified, s)
            else
              (let (i, s1) = getCommandID s;
                   c = \<lparr>ID = i, Type = COMMAND_FILE_SEND, Record = record,
                        Command = [],
                        FilesSend = Fields (r ''filesend''),
                        FilesRecv = [],
                        LogLevel = [], LogPath = [], Filter = getFilter lib r,
                        checkedIn = [], ExpireClients = expireClients,
                        ExpireStarted = started, ExpireDuration = expireDuration,
                        ExpireTime = expireTime\<rparr>
               in (Submitted (ID c), store c s1)))
         else if commandType = ''filerecv'' then
           (if r ''filerecv'' = [] then (NoFilesSpecified, s)
            else
              (let (i, s1) = getCommandID s;
                   c = \<lparr>ID = i, Type = COMMAND_FILE_RECV, Record = record,
                        Command = [],
                        FilesSend = [],
                        FilesRecv = Fields (r ''filerecv''),
                        LogLevel = [], LogPath = [], Filter = getFilter lib r,
                        checkedIn = [], ExpireClients = expireClients,
                        ExpireStarted = started, ExpireDuration = expireDuration,
                        ExpireTime = expireTime\<rparr>
               in (Submitted (ID c), store c s1)))
         else if commandType = ''log'' then
           (if r ''loglevel'' = [] then (NoLogLevelSpecified, s)
            else
              (let (i, s1) = getCommandID s;
                   c = \<lparr>ID = i, Type = COMMAND_LOG, Record = record,
                        Command = [],
                        FilesSend = [],
                        FilesRecv = [],
                        LogLevel = r ''loglevel'', LogPath = r ''logpath'',
                        Filter = getFilter lib r,
                        checkedIn = [], ExpireClients = expireClients,
                        ExpireStarted = started, ExpireDuration = expireDuration,
                        ExpireTime = expireTime\<rparr>
               in (Submitted (ID c), store c s1)))
         else (NewCommandForm, s))"

subsection \<open>Example states\<close>

definition echo_hi :: Command where
  "echo_hi = \<lparr>ID = 5, Type = COMMAND_EXEC, Record = False, Command = [''echo'', ''hi''],
     FilesSend = [], FilesRecv = [], LogLevel = [], LogPath = [], Filter = [],
     checkedIn = [101, 102], ExpireClients = 2, ExpireStarted = 0, ExpireDuration = 0,
     ExpireTime = 0\<rparr>"

definition ledger5 :: state where
  "ledger5 = \<lparr>commands = [5 \<mapsto> echo_hi], commandCounter = 5\<rparr>"

definition peer7 :: Command where
  "peer7 = \<lparr>ID = 7, Type = COMMAND_EXEC, Record = True, Command = [''ls'', ''-l''],
     FilesSend = [], FilesRecv = [], LogLevel = [], LogPath = [], Filter = [],
     checkedIn = [], ExpireClients = 0, ExpireStarted = 0, ExpireDuration = 0,
     ExpireTime = 0\<rparr>"

definition local7 :: Command where
  "local7 = peer7\<lparr>Command := [''ls''], checkedIn := [101, 102]\<rparr>"

definition peer9 :: Command where
  "peer9 = peer7\<lparr>ID := 9\<rparr>"

definition ledger7 :: state where
  "ledger7 = \<lparr>commands = [7 \<mapsto> local7], commandCounter = 0\<rparr>"

definition negative_count :: Command where
  \<comment> \<open>a command submitted with \<^verbatim>\<open>expire_responses=-1\<close>\<close>
  "negative_count = peer7\<lparr>ID := 1, ExpireClients := - 1\<rparr>"

definition at_noon :: Command where
  \<comment> \<open>a command whose only expiry is the absolute time 1000\<close>
  "at_noon = peer7\<lparr>ID := 2, ExpireTime := 1000\<rparr>"

definition ledger12 :: state where
  "ledger12 = \<lparr>commands = [1 \<mapsto> negative_count, 2 \<mapsto> at_noon], commandCounter = 2\<rparr>"

definition sample_gob :: "(goint \<rightharpoonup> Command) \<Rightarrow> 8 word list option" where
  \<comment> \<open>an encoder for the examples: of what it reads under key 7, it writes the
      identifier and the number of checkins\<close>
  "sample_gob m =
     map_option (\<lambda>v. [ucast (ID v), of_nat (length (checkedIn v))]) (m 7)"

definition sample_lib :: stdlib where
  \<comment> \<open>the results of Go's parsers on the strings that the examples use: the empty
      string is an error for each of them\<close>
  "sample_lib = \<lparr>
     Atoi = (\<lambda>s. if s = ''2'' then Some 2 else None),
     ParseInt = (\<lambda>s. if s = ''2'' then Some 2 else None),
     ParseDuration = (\<lambda>s. if s = ''300s'' then Some 300000000000 else None),
     ParseKitchen = (\<lambda>s. if s = ''3:04PM'' then Some (15, 4, 0) else None)\<rparr>"

definition blank_exec :: Request where
  \<comment> \<open>the form \<^verbatim>\<open>type=exec&command=ls\<close>, every other field blank\<close>
  "blank_exec key = (if key = ''type'' then ''exec'' else if key = ''command'' then ''ls'' else [])"

definition noon :: Time where
  \<comment> \<open>2024-01-01 12:00:00 UTC\<close>
  "noon = 63839664000000000000 + 43200000000000"

definition peer1 :: Command where
  "peer1 = peer7\<lparr>ID := 1\<rparr>"

definition merged1 :: state where
  \<comment> \<open>after \<^verbatim>\<open>init\<close>: a map with command 1 is merged, then client 101 checks in\<close>
  "merged1 = commandCheckIn 1 101 (updateCommandQueueProcessor [(1, peer1)] s0)"

section \<open>Properties\<close>

subsection \<open>ID allocator\<close>

lemma sint_succ: "c \<noteq> MaxInt \<Longrightarrow> sint (c + 1) = sint c + 1" for c :: goint
proof -
  assume a: "c \<noteq> MaxInt"
  have "sint c \<noteq> sint MaxInt" using a by (auto dest: signed_word_eqI)
  then have "sint c \<noteq> 2^63 - 1" by (simp add: MaxInt_def)
  moreover have "sint c < 2^63" using sint_lt[of c] by simp
  moreover have "- (2^63) \<le> sint c" using sint_ge[of c] by simp
  ultimately have r: "- (2^63) \<le> sint c + 1 \<and> sint c + 1 < 2^63" by simp
  have "sint (c + 1) = signed_take_bit 63 (sint c + 1)"
    by (simp add: sint_word_ariths)
  also have "\<dots> = sint c + 1" using r
    by (simp add: signed_take_bit_int_eq_self_iff)
  finally show ?thesis .
qed

lemma getCommandID_counter: "commandCounter (snd (getCommandID s)) = commandCounter s + 1"
  by (simp add: getCommandID_def Let_def)

lemma getCommandID_fst: "fst (getCommandID s) = commandCounter s + 1"
  by (simp add: getCommandID_def Let_def)

lemma checkMax_counter_ge:
  "sint (commandCounter s) \<le> sint (commandCounter (checkMaxCommandID x s))"
  by (auto simp: checkMaxCommandID_def word_sless_alt)

lemma checkMax_counter_ge_arg:
  "sint x \<le> sint (commandCounter (checkMaxCommandID x s))"
  by (auto simp: checkMaxCommandID_def word_sless_alt)

lemma returned_above_counter:
  "no_wrap cs s \<Longrightarrow> Returned r \<in> set (run cs s) \<Longrightarrow> sint (commandCounter s) < sint r"
proof (induction cs arbitrary: s)
  case Nil
  then show ?case by simp
next
  case (Cons c cs)
  show ?case
  proof (cases c)
    case Allocate
    let ?s' = "snd (getCommandID s)"
    from Cons.prems Allocate have nm: "commandCounter s \<noteq> MaxInt" and nw: "no_wrap cs ?s'"
      by simp_all
    have step: "sint (commandCounter ?s') = sint (commandCounter s) + 1"
      using nm by (simp add: getCommandID_counter sint_succ)
    from Cons.prems(2) Allocate
    have "r = fst (getCommandID s) \<or> Returned r \<in> set (run cs ?s')"
      by (auto simp: case_prod_beta)
    then show ?thesis
    proof
      assume "r = fst (getCommandID s)"
      then show ?thesis using nm by (simp add: getCommandID_fst sint_succ)
    next
      assume "Returned r \<in> set (run cs ?s')"
      from Cons.IH [OF nw this] step show ?thesis by simp
    qed
  next
    case (Reconcile x)
    let ?s' = "checkMaxCommandID x s"
    from Cons.prems Reconcile have nw: "no_wrap cs ?s'" and "Returned r \<in> set (run cs ?s')"
      by simp_all
    from Cons.IH [OF this] checkMax_counter_ge [of s x] show ?thesis by simp
  qed
qed

lemma run_head_below:
  "no_wrap (c # cs) s \<Longrightarrow> Returned r \<in> set (tl (run (c # cs) s)) \<Longrightarrow>
   sint (ident (hd (run (c # cs) s))) < sint r"
proof (cases c)
  case Allocate
  assume nw: "no_wrap (c # cs) s" and mem: "Returned r \<in> set (tl (run (c # cs) s))"
  let ?s' = "snd (getCommandID s)"
  from nw Allocate have "no_wrap cs ?s'" by simp
  moreover from mem Allocate have "Returned r \<in> set (run cs ?s')"
    by (simp add: case_prod_beta)
  ultimately have "sint (commandCounter ?s') < sint r"
    by (rule returned_above_counter)
  then show ?thesis using Allocate
    by (simp add: case_prod_beta getCommandID_counter getCommandID_fst)
next
  case (Reconcile x)
  assume nw: "no_wrap (c # cs) s" and mem: "Returned r \<in> set (tl (run (c # cs) s))"
  let ?s' = "checkMaxCommandID x s"
  from nw Reconcile have "no_wrap cs ?s'" by simp
  moreover from mem Reconcile have "Returned r \<in> set (run cs ?s')" by simp
  ultimately have "sint (commandCounter ?s') < sint r"
    by (rule returned_above_counter)
  with checkMax_counter_ge_arg [of x s] show ?thesis using Reconcile by simp
qed

lemma run_tl:
  "tl (run (c # cs) s) =
     run cs (case c of Allocate \<Rightarrow> snd (getCommandID s) | Reconcile x \<Rightarrow> checkMaxCommandID x s)"
  by (cases c) (simp_all add: case_prod_beta)

lemma no_wrap_tl:
  "no_wrap (c # cs) s \<Longrightarrow>
     no_wrap cs (case c of Allocate \<Rightarrow> snd (getCommandID s) | Reconcile x \<Rightarrow> checkMaxCommandID x s)"
  by (cases c) simp_all

text \<open>
  C4 (amended). In every finite sequence of \<^verbatim>\<open>getCommandID\<close> and
  \<^verbatim>\<open>checkMaxCommandID\<close> calls in which no allocation increments a counter holding the
  largest \<^verbatim>\<open>int\<close>, each identifier returned by an allocation (event \<open>j\<close>) is strictly
  greater than every identifier returned or reconciled before it (event \<open>i < j\<close>).
\<close>

theorem allocate_strictly_increasing:
  "no_wrap cs s \<Longrightarrow> i < j \<Longrightarrow> j < length (run cs s) \<Longrightarrow> run cs s ! j = Returned r \<Longrightarrow>
   ident (run cs s ! i) <s r"
proof (induction cs arbitrary: s i j)
  case Nil
  then show ?case by simp
next
  case (Cons c cs)
  let ?s' = "case c of Allocate \<Rightarrow> snd (getCommandID s) | Reconcile x \<Rightarrow> checkMaxCommandID x s"
  let ?es = "run (c # cs) s"
  have ne: "?es \<noteq> []" using Cons.prems(3) by auto
  from Cons.prems(2) obtain j' where j': "j = Suc j'" by (cases j) auto
  have tlj: "tl ?es ! j' = Returned r" and j'len: "j' < length (tl ?es)"
    using Cons.prems(3,4) j' ne by (simp_all add: nth_tl)
  show ?case
  proof (cases i)
    case 0
    from tlj j'len have "Returned r \<in> set (tl ?es)" by (metis nth_mem)
    from run_head_below [OF Cons.prems(1) this] 0 ne show ?thesis
      by (simp add: word_sless_alt hd_conv_nth)
  next
    case (Suc i')
    have "ident (run cs ?s' ! i') <s r"
    proof (rule Cons.IH)
      show "no_wrap cs ?s'" using Cons.prems(1) by (rule no_wrap_tl)
      show "i' < j'" using Cons.prems(2) Suc j' by simp
      show "j' < length (run cs ?s')" using j'len by (simp add: run_tl)
      show "run cs ?s' ! j' = Returned r" using tlj by (simp add: run_tl)
    qed
    moreover have "?es ! i = run cs ?s' ! i'"
    proof -
      have "i' < length (tl ?es)" using Cons.prems(2) Suc j' j'len by simp
      then have "tl ?es ! i' = ?es ! Suc i'" by (simp add: nth_tl)
      then show ?thesis using Suc by (simp add: run_tl)
    qed
    ultimately show ?thesis by simp
  qed
qed

theorem allocate_strictly_increasing_witness:
  "no_wrap [Allocate, Reconcile 5, Allocate] s0 \<and> (1::nat) < 2
   \<and> 2 < length (run [Allocate, Reconcile 5, Allocate] s0)
   \<and> run [Allocate, Reconcile 5, Allocate] s0 ! 2 = Returned 6
   \<and> ident (run [Allocate, Reconcile 5, Allocate] s0 ! 1) <s 6"
proof -
  have a: "no_wrap [Allocate, Reconcile 5, Allocate] s0"
    by (simp add: s0_def getCommandID_def checkMaxCommandID_def MaxInt_def word_sless_alt)
  have b: "run [Allocate, Reconcile 5, Allocate] s0 = [Returned 1, Reconciled 5, Returned 6]"
    by (simp add: s0_def getCommandID_def checkMaxCommandID_def word_sless_alt)
  have c: "2 < length (run [Allocate, Reconcile 5, Allocate] s0)" and d: "run [Allocate, Reconcile 5, Allocate] s0 ! 2 = Returned 6"
    unfolding b by simp_all
  have lt: "(1::nat) < 2" by simp
  from allocate_strictly_increasing [OF a lt c d]
  have e: "ident (run [Allocate, Reconcile 5, Allocate] s0 ! 1) <s 6" .
  from a lt c d e show ?thesis by blast
qed

text \<open>
  As stated, for every sequence, C4 fails where the increment wraps around: after
  reconciling the largest \<^verbatim>\<open>int\<close>, the next allocation returns the smallest one.
\<close>

theorem allocate_wraps_counterexample:
  "run [Reconcile MaxInt, Allocate] s0 = [Reconciled MaxInt, Returned (MaxInt + 1)]
   \<and> \<not> (ident (Reconciled MaxInt) <s MaxInt + 1)"
  by (simp add: s0_def getCommandID_def checkMaxCommandID_def MaxInt_def word_sless_alt)

subsection \<open>Splitting a command line\<close>

lemma loop_tracing_unclosed:
  "\<forall>v \<in> set f. \<not> HasSuffix v dquote \<Longrightarrow> fieldsQuoteEscape_loop f True temp ret = ret"
  by (induction f arbitrary: temp) simp_all

lemma loop_plain_fields:
  "\<forall>v \<in> set pre. \<not> HasPrefix v dquote \<Longrightarrow>
   fieldsQuoteEscape_loop (pre @ f) False temp ret = fieldsQuoteEscape_loop f False temp (ret @ pre)"
  by (induction pre arbitrary: ret) simp_all

lemma loop_tracing_fields:
  "\<forall>v \<in> set mid. \<not> HasSuffix v dquote \<Longrightarrow>
   fieldsQuoteEscape_loop (mid @ f) True temp ret
     = fieldsQuoteEscape_loop f True (temp @ concat (map (\<lambda>v. '' '' @ v) mid)) ret"
  by (induction mid arbitrary: temp) simp_all

lemma loop_quoted_group:
  assumes "HasPrefix q dquote" and "\<forall>v \<in> set mid. \<not> HasSuffix v dquote" and "HasSuffix e dquote"
  shows "fieldsQuoteEscape_loop (q # mid @ e # post) False temp ret
     = fieldsQuoteEscape_loop post False
         (drop 1 q @ concat (map (\<lambda>v. '' '' @ v) mid) @ '' '' @ take (length e - 1) e)
         (ret @ [drop 1 q @ concat (map (\<lambda>v. '' '' @ v) mid) @ '' '' @ take (length e - 1) e])"
proof -
  have "fieldsQuoteEscape_loop (q # mid @ e # post) False temp ret
      = fieldsQuoteEscape_loop (mid @ e # post) True (drop 1 q) ret"
    using assms(1) by simp
  also have "\<dots> = fieldsQuoteEscape_loop (e # post) True
      (drop 1 q @ concat (map (\<lambda>v. '' '' @ v) mid)) ret"
    using assms(2) by (rule loop_tracing_fields)
  also have "\<dots> = fieldsQuoteEscape_loop post False
         (drop 1 q @ concat (map (\<lambda>v. '' '' @ v) mid) @ '' '' @ take (length e - 1) e)
         (ret @ [drop 1 q @ concat (map (\<lambda>v. '' '' @ v) mid) @ '' '' @ take (length e - 1) e])"
    using assms(3) by (simp add: Let_def)
  finally show ?thesis .
qed

lemma fields_from_space:
  "isSpace c \<Longrightarrow> fields_from cur (s1 @ c # s2) = fields_from cur s1 @ fields_from [] s2"
  by (induction s1 arbitrary: cur) simp_all

lemma fields_from_word:
  "\<forall>c \<in> set w. \<not> isSpace c \<Longrightarrow> fields_from cur w = (if cur @ w = [] then [] else [cur @ w])"
  by (induction w arbitrary: cur) simp_all

text \<open>
  C9 (what the code does). \<^verbatim>\<open>strings.Fields\<close> splits at every white-space byte and
  returns the non-empty runs between them (a run of ASCII bytes without white space is
  one field). \<^verbatim>\<open>fieldsQuoteEscape\<close> returns these fields
  as they are when none begins with a double quote. A quoted substring that spans two or
  more fields (a field \<open>q\<close> beginning with a quote, fields \<open>mid\<close>, none ending with a quote,
  and a field \<open>e\<close> ending with a quote) becomes one argument: the fields joined by single
  spaces, without the opening and the closing quote; this holds at any point of the loop
  outside a quotation, and so for the whole input when the fields before and after the
  quotation begin with no quote. On \<^verbatim>\<open>a b "c d"\<close> the result is \<^verbatim>\<open>a\<close>, \<^verbatim>\<open>b\<close>, \<^verbatim>\<open>c d\<close>, and
  on \<^verbatim>\<open>a b c\<close> it is \<^verbatim>\<open>a\<close>, \<^verbatim>\<open>b\<close>, \<^verbatim>\<open>c\<close>. A quoted substring that is one field is not
  grouped: the closing quote is looked for in later fields only, and on \<^verbatim>\<open>echo "hi"\<close> the
  result is \<^verbatim>\<open>echo\<close> alone, not \<^verbatim>\<open>echo\<close>, \<^verbatim>\<open>hi\<close>.
\<close>

theorem fieldsQuoteEscape_grouping:
  "Fields [] = []
   \<and> (w \<noteq> [] \<and> (\<forall>c \<in> set w. of_char c < (128 :: nat) \<and> \<not> isSpace c) \<longrightarrow> Fields w = [w])
   \<and> (isSpace c \<longrightarrow> Fields (s1 @ c # s2) = Fields s1 @ Fields s2)
   \<and> ((\<forall>v \<in> set (Fields input). \<not> HasPrefix v dquote) \<longrightarrow> fieldsQuoteEscape input = Fields input)
   \<and> (HasPrefix q dquote \<and> (\<forall>v \<in> set mid. \<not> HasSuffix v dquote) \<and> HasSuffix e dquote \<longrightarrow>
        fieldsQuoteEscape_loop (q # mid @ e # post) False temp ret
          = fieldsQuoteEscape_loop post False
              (drop 1 q @ concat (map (\<lambda>v. '' '' @ v) mid) @ '' '' @ take (length e - 1) e)
              (ret @ [drop 1 q @ concat (map (\<lambda>v. '' '' @ v) mid) @ '' '' @ take (length e - 1) e]))
   \<and> (Fields input = pre @ q # mid @ e # post
        \<and> (\<forall>v \<in> set pre. \<not> HasPrefix v dquote) \<and> (\<forall>v \<in> set post. \<not> HasPrefix v dquote)
        \<and> HasPrefix q dquote \<and> (\<forall>v \<in> set mid. \<not> HasSuffix v dquote) \<and> HasSuffix e dquote \<longrightarrow>
        fieldsQuoteEscape input
          = pre @ [drop 1 q @ concat (map (\<lambda>v. '' '' @ v) mid) @ '' '' @ take (length e - 1) e] @ post)
   \<and> fieldsQuoteEscape (''a b '' @ dquote @ ''c d'' @ dquote) = [''a'', ''b'', ''c d'']
   \<and> fieldsQuoteEscape ''a b c'' = [''a'', ''b'', ''c'']
   \<and> fieldsQuoteEscape (''echo '' @ dquote @ ''hi'' @ dquote) = [''echo'']"
proof (intro conjI impI)
  show "Fields [] = []" by (simp add: Fields_def)
next
  assume "w \<noteq> [] \<and> (\<forall>c \<in> set w. of_char c < (128 :: nat) \<and> \<not> isSpace c)"
  then show "Fields w = [w]" by (simp add: Fields_def fields_from_word)
next
  assume "isSpace c"
  then show "Fields (s1 @ c # s2) = Fields s1 @ Fields s2"
    unfolding Fields_def by (rule fields_from_space)
next
  assume "\<forall>v \<in> set (Fields input). \<not> HasPrefix v dquote"
  then have "fieldsQuoteEscape_loop (Fields input @ []) False [] []
      = fieldsQuoteEscape_loop [] False [] ([] @ Fields input)"
    by (rule loop_plain_fields)
  then show "fieldsQuoteEscape input = Fields input"
    by (simp add: fieldsQuoteEscape_def)
next
  assume "HasPrefix q dquote \<and> (\<forall>v \<in> set mid. \<not> HasSuffix v dquote) \<and> HasSuffix e dquote"
  then show "fieldsQuoteEscape_loop (q # mid @ e # post) False temp ret
          = fieldsQuoteEscape_loop post False
              (drop 1 q @ concat (map (\<lambda>v. '' '' @ v) mid) @ '' '' @ take (length e - 1) e)
              (ret @ [drop 1 q @ concat (map (\<lambda>v. '' '' @ v) mid) @ '' '' @ take (length e - 1) e])"
    by (blast intro: loop_quoted_group)
next
  let ?g = "drop 1 q @ concat (map (\<lambda>v. '' '' @ v) mid) @ '' '' @ take (length e - 1) e"
  assume a: "Fields input = pre @ q # mid @ e # post
        \<and> (\<forall>v \<in> set pre. \<not> HasPrefix v dquote) \<and> (\<forall>v \<in> set post. \<not> HasPrefix v dquote)
        \<and> HasPrefix q dquote \<and> (\<forall>v \<in> set mid. \<not> HasSuffix v dquote) \<and> HasSuffix e dquote"
  then have "fieldsQuoteEscape input = fieldsQuoteEscape_loop (pre @ q # mid @ e # post) False [] []"
    by (simp add: fieldsQuoteEscape_def)
  also have "\<dots> = fieldsQuoteEscape_loop (q # mid @ e # post) False [] ([] @ pre)"
    using a by (intro loop_plain_fields) simp
  also have "\<dots> = fieldsQuoteEscape_loop post False ?g (([] @ pre) @ [?g])"
    using a by (intro loop_quoted_group) simp_all
  also have "\<dots> = fieldsQuoteEscape_loop (post @ []) False ?g (pre @ [?g])"
    by simp
  also have "\<dots> = fieldsQuoteEscape_loop [] False ?g ((pre @ [?g]) @ post)"
    using a by (intro loop_plain_fields) simp
  finally show "fieldsQuoteEscape input = pre @ [?g] @ post" by simp
next
  show "fieldsQuoteEscape (''a b '' @ dquote @ ''c d'' @ dquote) = [''a'', ''b'', ''c d'']"
    by (simp add: fieldsQuoteEscape_def Fields_def isSpace_def dquote_def HasPrefix_def
        HasSuffix_def)
next
  show "fieldsQuoteEscape ''a b c'' = [''a'', ''b'', ''c'']"
    by (simp add: fieldsQuoteEscape_def Fields_def isSpace_def dquote_def HasPrefix_def
        HasSuffix_def)
next
  show "fieldsQuoteEscape (''echo '' @ dquote @ ''hi'' @ dquote) = [''echo'']"
    by (simp add: fieldsQuoteEscape_def Fields_def isSpace_def dquote_def HasPrefix_def
        HasSuffix_def)
qed

theorem fieldsQuoteEscape_grouping_witness:
  "Fields (''run '' @ dquote @ ''a b c'' @ dquote @ '' now'')
     = [''run''] @ (dquote @ ''a'') # [''b''] @ (''c'' @ dquote) # [''now'']
   \<and> fieldsQuoteEscape (''run '' @ dquote @ ''a b c'' @ dquote @ '' now'')
     = [''run'', ''a b c'', ''now'']
   \<and> Fields ''ls -l'' = [''ls'', ''-l'']
   \<and> fieldsQuoteEscape ''ls -l'' = [''ls'', ''-l'']
   \<and> isSpace (CHR '' '') \<and> Fields (''ls'' @ CHR '' '' # ''-l'') = Fields ''ls'' @ Fields ''-l''
   \<and> Fields ''ls'' = [''ls'']"
proof -
  let ?input = "''run '' @ dquote @ ''a b c'' @ dquote @ '' now''"
  have f: "Fields ?input = [''run''] @ (dquote @ ''a'') # [''b''] @ (''c'' @ dquote) # [''now'']"
    by (simp add: Fields_def isSpace_def dquote_def)
  have h: "(\<forall>v \<in> set [''run'']. \<not> HasPrefix v dquote)"
    "(\<forall>v \<in> set [''now'']. \<not> HasPrefix v dquote)"
    "HasPrefix (dquote @ ''a'') dquote"
    "(\<forall>v \<in> set [''b'']. \<not> HasSuffix v dquote)"
    "HasSuffix (''c'' @ dquote) dquote"
    by (simp_all add: HasPrefix_def HasSuffix_def dquote_def)
  have g: "drop 1 (dquote @ ''a'') @ concat (map (\<lambda>v. '' '' @ v) [''b'']) @ '' ''
             @ take (length (''c'' @ dquote) - 1) (''c'' @ dquote) = ''a b c''"
    by (simp add: dquote_def)
  from fieldsQuoteEscape_grouping [where input = ?input and pre = "[''run'']"
      and q = "dquote @ ''a''" and mid = "[''b'']" and e = "''c'' @ dquote" and post = "[''now'']"]
    f h
  have "fieldsQuoteEscape ?input
      = [''run''] @ [drop 1 (dquote @ ''a'') @ concat (map (\<lambda>v. '' '' @ v) [''b'']) @ '' ''
             @ take (length (''c'' @ dquote) - 1) (''c'' @ dquote)] @ [''now'']"
    by blast
  then have r1: "fieldsQuoteEscape ?input = [''run'', ''a b c'', ''now'']"
    by (simp only: g) simp
  have p: "\<forall>v \<in> set (Fields ''ls -l''). \<not> HasPrefix v dquote"
    by (simp add: Fields_def isSpace_def HasPrefix_def dquote_def)
  have sp: "isSpace (CHR '' '')" and w: "''ls'' \<noteq> [] \<and> (\<forall>c \<in> set ''ls''. of_char c < (128 :: nat) \<and> \<not> isSpace c)"
    by (simp_all add: isSpace_def)
  from fieldsQuoteEscape_grouping [where input = "''ls -l''" and c = "CHR '' ''"
      and ?s1.0 = "''ls''" and ?s2.0 = "''-l''" and w = "''ls''"] p sp w
  have r2: "fieldsQuoteEscape ''ls -l'' = Fields ''ls -l''"
    and r3: "Fields (''ls'' @ CHR '' '' # ''-l'') = Fields ''ls'' @ Fields ''-l''"
    and r4: "Fields ''ls'' = [''ls'']"
    by blast+
  have fl: "Fields ''ls -l'' = [''ls'', ''-l'']"
    by (simp add: Fields_def isSpace_def)
  from r2 fl have r2': "fieldsQuoteEscape ''ls -l'' = [''ls'', ''-l'']" by simp
  from f r1 fl r2' sp r3 r4 show ?thesis by blast
qed

text \<open>
  C10. Once a field that begins with a double quote is read outside a quotation (the
  loop is at any \<open>temp\<close> and \<open>ret\<close> with \<open>trace\<close> false), and no later field ends with a
  double quote, nothing more is appended: the loop returns \<open>ret\<close> as it was. So when the
  fields of the input are \<open>pre\<close>, none beginning with a quote, then \<open>q\<close> beginning with a
  quote (it may end with one too, as \<^verbatim>\<open>"hi"\<close> does), then \<open>rest\<close>, none ending with a quote,
  the result is \<open>pre\<close>: \<open>q\<close> and all of \<open>rest\<close> are absent.
\<close>

theorem fieldsQuoteEscape_unclosed_quote:
  "(HasPrefix q dquote \<and> (\<forall>v \<in> set rest. \<not> HasSuffix v dquote)
      \<longrightarrow> fieldsQuoteEscape_loop (q # rest) False temp ret = ret)
   \<and> (Fields input = pre @ q # rest \<and> (\<forall>v \<in> set pre. \<not> HasPrefix v dquote)
        \<and> HasPrefix q dquote \<and> (\<forall>v \<in> set rest. \<not> HasSuffix v dquote)
      \<longrightarrow> fieldsQuoteEscape input = pre)"
proof (intro conjI impI)
  assume "HasPrefix q dquote \<and> (\<forall>v \<in> set rest. \<not> HasSuffix v dquote)"
  then show "fieldsQuoteEscape_loop (q # rest) False temp ret = ret"
    by (simp add: loop_tracing_unclosed)
next
  assume a: "Fields input = pre @ q # rest \<and> (\<forall>v \<in> set pre. \<not> HasPrefix v dquote)
        \<and> HasPrefix q dquote \<and> (\<forall>v \<in> set rest. \<not> HasSuffix v dquote)"
  then have "fieldsQuoteEscape input = fieldsQuoteEscape_loop (q # rest) False [] ([] @ pre)"
    unfolding fieldsQuoteEscape_def using loop_plain_fields [of pre "q # rest" "[]" "[]"]
    by simp
  also have "\<dots> = pre" using a by (simp add: loop_tracing_unclosed)
  finally show "fieldsQuoteEscape input = pre" .
qed

theorem fieldsQuoteEscape_unclosed_quote_witness:
  "fieldsQuoteEscape (''echo '' @ dquote @ ''hi'' @ dquote @ '' there'') = [''echo'']
   \<and> fieldsQuoteEscape_loop [dquote @ ''hi'' @ dquote, ''there''] False [] [''echo''] = [''echo'']"
proof -
  let ?q = "dquote @ ''hi'' @ dquote"
  let ?input = "''echo '' @ dquote @ ''hi'' @ dquote @ '' there''"
  have f: "Fields ?input = [''echo''] @ ?q # [''there'']"
    by (simp add: Fields_def isSpace_def dquote_def)
  have p: "\<forall>v \<in> set [''echo'']. \<not> HasPrefix v dquote"
    by (simp add: HasPrefix_def dquote_def)
  have q: "HasPrefix ?q dquote"
    by (simp add: HasPrefix_def dquote_def)
  have r: "\<forall>v \<in> set [''there'']. \<not> HasSuffix v dquote"
    by (simp add: HasSuffix_def dquote_def)
  from fieldsQuoteEscape_unclosed_quote [of ?q "[''there'']" "[]" "[''echo'']" ?input "[''echo'']"]
    f p q r
  show ?thesis by blast
qed

subsection \<open>Checkin tracker\<close>

text \<open>
  C7. \<^verbatim>\<open>commandCheckIn\<close> on an identifier that is in the ledger appends the client to
  that command's \<^verbatim>\<open>checkedIn\<close> and changes nothing else: the other fields of the command,
  the other entries and the counter are as before. On an identifier that is not in the
  ledger it returns the state unchanged: no entry is created.
\<close>

theorem commandCheckIn_spec:
  "(commands s i = Some c \<longrightarrow>
      commandCheckIn i cid s = s\<lparr>commands := (commands s)(i \<mapsto> c\<lparr>checkedIn := checkedIn c @ [cid]\<rparr>)\<rparr>
      \<and> dom (commands (commandCheckIn i cid s)) = dom (commands s)
      \<and> (\<forall>k. k \<noteq> i \<longrightarrow> commands (commandCheckIn i cid s) k = commands s k)
      \<and> commandCounter (commandCheckIn i cid s) = commandCounter s)
   \<and> (commands s i = None \<longrightarrow> commandCheckIn i cid s = s)"
  by (auto simp: commandCheckIn_def)

theorem commandCheckIn_spec_witness:
  "commands ledger5 5 = Some echo_hi
   \<and> commandCheckIn 5 103 ledger5
       = ledger5\<lparr>commands := (commands ledger5)(5 \<mapsto> echo_hi\<lparr>checkedIn := [101, 102, 103]\<rparr>)\<rparr>
   \<and> commands ledger5 6 = None
   \<and> commandCheckIn 6 103 ledger5 = ledger5"
proof -
  have a: "commands ledger5 5 = Some echo_hi" and b: "commands ledger5 6 = None"
    by (simp_all add: ledger5_def)
  have c: "checkedIn echo_hi @ [103] = [101, 102, 103]"
    by (simp add: echo_hi_def)
  from commandCheckIn_spec [of ledger5 5 echo_hi 103] a c
  have d: "commandCheckIn 5 103 ledger5
       = ledger5\<lparr>commands := (commands ledger5)(5 \<mapsto> echo_hi\<lparr>checkedIn := [101, 102, 103]\<rparr>)\<rparr>"
    by simp
  from commandCheckIn_spec [of ledger5 6 echo_hi 103] b
  have e: "commandCheckIn 6 103 ledger5 = ledger5" by simp
  from a b d e show ?thesis by blast
qed

subsection \<open>Merge processor\<close>

lemma updateCommand_counter: "commandCounter (updateCommand k v s) = commandCounter s"
  by (simp add: updateCommand_def Let_def)

lemma merge_counter: "commandCounter (updateCommandQueueProcessor c s) = commandCounter s"
  by (induction c arbitrary: s) (auto simp: updateCommand_counter)

lemma updateCommand_other: "k' \<noteq> k \<Longrightarrow> commands (updateCommand k v s) k' = commands s k'"
  by (simp add: updateCommand_def Let_def)

lemma updateCommand_same:
  "commands (updateCommand k v s) k
     = Some (case commands s k of Some w \<Rightarrow> v\<lparr>checkedIn := checkedIn w\<rparr> | None \<Rightarrow> v)"
  by (simp add: updateCommand_def Let_def)

lemma merge_other:
  "k \<notin> fst ` set c \<Longrightarrow> commands (updateCommandQueueProcessor c s) k = commands s k"
proof (induction c arbitrary: s)
  case Nil
  then show ?case by simp
next
  case (Cons e c)
  obtain k' v' where e: "e = (k', v')" by (cases e)
  with Cons.prems have "k \<noteq> k'" and "k \<notin> fst ` set c" by auto
  with Cons.IH [of "updateCommand k' v' s"] e show ?case
    by (simp add: updateCommand_other)
qed

lemma merge_entry:
  "distinct (map fst c) \<Longrightarrow> (k, v) \<in> set c \<Longrightarrow>
   commands (updateCommandQueueProcessor c s) k
     = Some (case commands s k of Some w \<Rightarrow> v\<lparr>checkedIn := checkedIn w\<rparr> | None \<Rightarrow> v)"
proof (induction c arbitrary: s)
  case Nil
  then show ?case by simp
next
  case (Cons e c)
  obtain k' v' where e: "e = (k', v')" by (cases e)
  from Cons.prems(1) e have d: "distinct (map fst c)" and nk: "k' \<notin> fst ` set c" by auto
  show ?case
  proof (cases "(k, v) = (k', v')")
    case True
    with nk have "k \<notin> fst ` set c" by simp
    then have "commands (updateCommandQueueProcessor c (updateCommand k' v' s)) k
                 = commands (updateCommand k' v' s) k"
      by (rule merge_other)
    with True e show ?thesis by (simp add: updateCommand_same split: option.split)
  next
    case False
    with Cons.prems(2) e have m: "(k, v) \<in> set c" by auto
    with nk have "k \<noteq> k'" by force
    with Cons.IH [OF d m, of "updateCommand k' v' s"] e show ?thesis
      by (simp add: updateCommand_other)
  qed
qed

text \<open>
  C3. When the merge processor has processed an inbound map \<open>c\<close> (its entries in any
  order, the keys distinct), then for every entry \<open>(k, v)\<close> of \<open>c\<close>: if the ledger held an
  entry \<open>w\<close> for \<open>k\<close>, the record now stored under \<open>k\<close> is \<open>v\<close> with its \<^verbatim>\<open>checkedIn\<close>
  replaced by that of \<open>w\<close> (every other field is that of \<open>v\<close>); if the ledger held none,
  the record stored is \<open>v\<close>, unmodified.
\<close>

theorem merge_preserves_checkins:
  "distinct (map fst c) \<and> (k, v) \<in> set c \<longrightarrow>
     (\<forall>w. commands s k = Some w \<longrightarrow>
        commands (updateCommandQueueProcessor c s) k = Some (v\<lparr>checkedIn := checkedIn w\<rparr>))
     \<and> (commands s k = None \<longrightarrow> commands (updateCommandQueueProcessor c s) k = Some v)"
proof (intro impI)
  assume "distinct (map fst c) \<and> (k, v) \<in> set c"
  then have "commands (updateCommandQueueProcessor c s) k
     = Some (case commands s k of Some w \<Rightarrow> v\<lparr>checkedIn := checkedIn w\<rparr> | None \<Rightarrow> v)"
    by (simp add: merge_entry)
  then show "(\<forall>w. commands s k = Some w \<longrightarrow>
        commands (updateCommandQueueProcessor c s) k = Some (v\<lparr>checkedIn := checkedIn w\<rparr>))
     \<and> (commands s k = None \<longrightarrow> commands (updateCommandQueueProcessor c s) k = Some v)"
    by simp
qed

theorem merge_preserves_checkins_witness:
  "distinct (map fst [(7 :: goint, peer7), (9, peer9)])
   \<and> commands ledger7 7 = Some local7
   \<and> commands (updateCommandQueueProcessor [(7, peer7), (9, peer9)] ledger7) 7
       = Some (peer7\<lparr>checkedIn := [101, 102]\<rparr>)
   \<and> commands ledger7 9 = None
   \<and> commands (updateCommandQueueProcessor [(7, peer7), (9, peer9)] ledger7) 9 = Some peer9"
proof -
  let ?c = "[(7 :: goint, peer7), (9, peer9)]"
  have d: "distinct (map fst ?c)" by simp
  have a: "commands ledger7 7 = Some local7" and b: "commands ledger7 9 = None"
    by (simp_all add: ledger7_def)
  have l: "checkedIn local7 = [101, 102]" by (simp add: local7_def)
  from merge_preserves_checkins [of ?c 7 peer7 ledger7] d a l
  have e: "commands (updateCommandQueueProcessor ?c ledger7) 7
             = Some (peer7\<lparr>checkedIn := [101, 102]\<rparr>)"
    by simp
  from merge_preserves_checkins [of ?c 9 peer9 ledger7] d b
  have f: "commands (updateCommandQueueProcessor ?c ledger7) 9 = Some peer9"
    by simp
  from d a b e f show ?thesis by blast
qed

lemma reconciled_prefix_below:
  "no_wrap (map Reconcile ks @ cs) s \<Longrightarrow> Returned r \<in> set (run (map Reconcile ks @ cs) s) \<Longrightarrow>
   k \<in> set ks \<Longrightarrow> sint k < sint r"
proof (induction ks arbitrary: s)
  case Nil
  then show ?case by simp
next
  case (Cons x ks)
  let ?s' = "checkMaxCommandID x s"
  from Cons.prems have nw: "no_wrap (map Reconcile ks @ cs) ?s'"
    and mem: "Returned r \<in> set (run (map Reconcile ks @ cs) ?s')"
    by simp_all
  show ?case
  proof (cases "k = x")
    case True
    from returned_above_counter [OF nw mem] checkMax_counter_ge_arg [of x s] True
    show ?thesis by simp
  next
    case False
    with Cons.prems(3) have "k \<in> set ks" by simp
    from Cons.IH [OF nw mem this] show ?thesis .
  qed
qed

text \<open>
  C2 (amended). The merge processor leaves \<^verbatim>\<open>commandCounter\<close> as it is. When, after
  the merge of a map \<open>c\<close>, \<^verbatim>\<open>checkMaxCommandID\<close> is called for every identifier of \<open>c\<close>,
  every identifier \<open>r\<close> that a later \<^verbatim>\<open>getCommandID\<close> returns (in any later sequence \<open>cs\<close>
  of allocator calls without wrap-around) is strictly greater than every identifier \<open>k\<close>
  of \<open>c\<close>.
\<close>

theorem merge_counter_reconcile:
  "commandCounter (updateCommandQueueProcessor c s) = commandCounter s
   \<and> (no_wrap (map Reconcile (map fst c) @ cs) (updateCommandQueueProcessor c s)
        \<and> Returned r \<in> set (run (map Reconcile (map fst c) @ cs) (updateCommandQueueProcessor c s))
        \<and> (k, v) \<in> set c
      \<longrightarrow> k <s r)"
proof (intro conjI impI)
  show "commandCounter (updateCommandQueueProcessor c s) = commandCounter s"
    by (rule merge_counter)
next
  let ?s' = "updateCommandQueueProcessor c s"
  assume a: "no_wrap (map Reconcile (map fst c) @ cs) ?s'
        \<and> Returned r \<in> set (run (map Reconcile (map fst c) @ cs) ?s')
        \<and> (k, v) \<in> set c"
  then have "k \<in> set (map fst c)" by force
  with a have "sint k < sint r" by (blast intro: reconciled_prefix_below)
  then show "k <s r" by (simp add: word_sless_alt)
qed

theorem merge_counter_reconcile_witness:
  "commandCounter (updateCommandQueueProcessor [(7, peer7)] s0) = commandCounter s0
   \<and> no_wrap (map Reconcile (map fst [(7, peer7)]) @ [Allocate])
        (updateCommandQueueProcessor [(7, peer7)] s0)
   \<and> Returned 8 \<in> set (run (map Reconcile (map fst [(7, peer7)]) @ [Allocate])
        (updateCommandQueueProcessor [(7, peer7)] s0))
   \<and> (7 :: goint, peer7) \<in> set [(7, peer7)]
   \<and> (7 :: goint) <s 8"
proof -
  let ?c = "[(7 :: goint, peer7)]"
  let ?s' = "updateCommandQueueProcessor ?c s0"
  have cnt: "commandCounter ?s' = 0"
    by (simp add: updateCommand_def s0_def)
  have a: "no_wrap (map Reconcile (map fst ?c) @ [Allocate]) ?s'"
    using cnt by (simp add: checkMaxCommandID_def word_sless_alt MaxInt_def)
  have b: "Returned 8 \<in> set (run (map Reconcile (map fst ?c) @ [Allocate]) ?s')"
    using cnt by (simp add: checkMaxCommandID_def getCommandID_def word_sless_alt)
  have m: "(7 :: goint, peer7) \<in> set ?c" by simp
  from merge_counter_reconcile [of ?c s0 "[Allocate]" 8 7 peer7] a b m
  have "commandCounter ?s' = commandCounter s0" and "(7 :: goint) <s 8" by blast+
  with a b m show ?thesis by blast
qed

text \<open>
  As stated, C2 fails: merging a map that holds identifier 7 into the initial state
  leaves the counter at 0, and the next allocation returns 1.
\<close>

theorem merge_counter_counterexample:
  "commandCounter (updateCommandQueueProcessor [(7, peer7)] s0) = 0
   \<and> fst (getCommandID (updateCommandQueueProcessor [(7, peer7)] s0)) = 1
   \<and> \<not> ((7 :: goint) <s 1)"
  by (simp add: updateCommand_def s0_def getCommandID_def word_sless_alt)

subsection \<open>Expiry engine\<close>

lemma reap_entry:
  "reap now clock ks m k =
     (if k \<in> set ks
      then (case m k of None \<Rightarrow> None
            | Some v \<Rightarrow> if expired now (clock k) v then None else Some v)
      else m k)"
proof (induction ks arbitrary: m)
  case Nil
  then show ?case by simp
next
  case (Cons x ks)
  define m' where "m' = (case m x of None \<Rightarrow> m
      | Some v \<Rightarrow> if expired now (clock x) v then m(x := None) else m)"
  have step: "reap now clock (x # ks) m = reap now clock ks m'"
    by (simp add: m'_def split: option.split)
  have ih: "reap now clock ks m' k =
     (if k \<in> set ks
      then (case m' k of None \<Rightarrow> None
            | Some v \<Rightarrow> if expired now (clock k) v then None else Some v)
      else m' k)"
    by (rule Cons.IH)
  have other: "k \<noteq> x \<Longrightarrow> m' k = m k"
    by (simp add: m'_def split: option.split)
  have same: "m' x = (case m x of None \<Rightarrow> None
            | Some v \<Rightarrow> if expired now (clock x) v then None else Some v)"
    by (simp add: m'_def split: option.split)
  show ?case
  proof (cases "k = x")
    case True
    then show ?thesis unfolding step ih by (simp add: same split: option.split)
  next
    case False
    then show ?thesis unfolding step ih by (simp add: other)
  qed
qed

text \<open>
  C5 (amended). One tick of the reaper, visiting the keys of the ledger in any order,
  removes exactly the commands that meet the first expiry policy that is active for them,
  and each command is tested against one policy only: with \<open>ExpireClients\<close> other than 0
  a command \<open>v\<close> is removed iff \<open>len(checkedIn) >= ExpireClients\<close>; else with
  \<open>ExpireDuration\<close> other than 0 it is removed iff the time since \<open>ExpireStarted\<close> (by the
  clock read when the command is examined, as \<^verbatim>\<open>time.Since\<close> computes it) is greater than
  \<open>ExpireDuration\<close>; else with a non-zero \<open>ExpireTime\<close> it is removed iff \<open>now\<close> is strictly
  after \<open>ExpireTime\<close>; a command with none of these set is not removed. Commands that
  stay are unchanged, and the counter is unchanged.
\<close>

theorem expireReaper_tick:
  "set ks = dom (commands s) \<longrightarrow>
     commandCounter (expireReaper now clock ks s) = commandCounter s
     \<and> (commands s k = None \<longrightarrow> commands (expireReaper now clock ks s) k = None)
     \<and> (\<forall>v. commands s k = Some v \<longrightarrow>
          commands (expireReaper now clock ks s) k =
            (if (if ExpireClients v \<noteq> 0
                   then sint (ExpireClients v) \<le> int (length (checkedIn v))
                 else if ExpireDuration v \<noteq> 0
                   then sint (ExpireDuration v) < Sub (clock k) (ExpireStarted v)
                 else if ExpireTime v \<noteq> 0
                   then ExpireTime v < now
                 else False)
             then None else Some v))"
proof (intro impI conjI allI)
  show "commandCounter (expireReaper now clock ks s) = commandCounter s"
    by (simp add: expireReaper_def)
next
  assume "commands s k = None"
  then show "commands (expireReaper now clock ks s) k = None"
    by (simp add: expireReaper_def reap_entry)
next
  fix v
  assume ks: "set ks = dom (commands s)" and v: "commands s k = Some v"
  then have "k \<in> set ks" by auto
  with v show "commands (expireReaper now clock ks s) k =
            (if (if ExpireClients v \<noteq> 0
                   then sint (ExpireClients v) \<le> int (length (checkedIn v))
                 else if ExpireDuration v \<noteq> 0
                   then sint (ExpireDuration v) < Sub (clock k) (ExpireStarted v)
                 else if ExpireTime v \<noteq> 0
                   then ExpireTime v < now
                 else False)
             then None else Some v)"
    by (simp add: expireReaper_def reap_entry expired_def IsZero_def After_def)
qed

theorem expireReaper_tick_witness:
  "set [5] = dom (commands ledger5)
   \<and> commands ledger5 5 = Some echo_hi
   \<and> commands (expireReaper 1000 (\<lambda>k. 1000) [5] ledger5) 5 = None
   \<and> commands (expireReaper 1000 (\<lambda>k. 1000) [5]
        (ledger5\<lparr>commands := [5 \<mapsto> echo_hi\<lparr>checkedIn := [101]\<rparr>]\<rparr>)) 5
       = Some (echo_hi\<lparr>checkedIn := [101]\<rparr>)"
proof -
  let ?s1 = "ledger5\<lparr>commands := [5 \<mapsto> echo_hi\<lparr>checkedIn := [101]\<rparr>]\<rparr>"
  have d: "set [5] = dom (commands ledger5)" and d1: "set [5] = dom (commands ?s1)"
    by (simp_all add: ledger5_def)
  have a: "commands ledger5 5 = Some echo_hi"
    and a1: "commands ?s1 5 = Some (echo_hi\<lparr>checkedIn := [101]\<rparr>)"
    by (simp_all add: ledger5_def)
  from expireReaper_tick [of "[5]" ledger5 1000 "\<lambda>k. 1000" 5] d a
  have b: "commands (expireReaper 1000 (\<lambda>k. 1000) [5] ledger5) 5 = None"
    by (simp add: echo_hi_def)
  from expireReaper_tick [of "[5]" ?s1 1000 "\<lambda>k. 1000" 5] d1 a1
  have c: "commands (expireReaper 1000 (\<lambda>k. 1000) [5] ?s1) 5
             = Some (echo_hi\<lparr>checkedIn := [101]\<rparr>)"
    by (simp add: echo_hi_def)
  from d a b c show ?thesis by blast
qed

text \<open>
  As stated, C5 fails where the source tests \<open>!= 0\<close> and strictly-after: at a tick with
  \<open>now = 1000\<close>, the command with \<open>ExpireClients = -1\<close> is removed although the stated rule
  keeps it, and the command with \<open>ExpireTime = 1000\<close> stays although the stated rule
  removes it.
\<close>

theorem expireReaper_tick_counterexample:
  "commands (expireReaper 1000 (\<lambda>k. 1000) [1, 2] ledger12) 1 = None
   \<and> \<not> spec_removed 1000 negative_count
   \<and> commands (expireReaper 1000 (\<lambda>k. 1000) [1, 2] ledger12) 2 = Some at_noon
   \<and> spec_removed 1000 at_noon"
  by (simp add: expireReaper_def ledger12_def expired_def spec_removed_def negative_count_def
      at_noon_def peer7_def IsZero_def After_def word_sless_alt)

subsection \<open>Resubmission\<close>

lemma digits_last: "digits n \<noteq> [] \<and> last (digits n) \<in> set ''0123456789''"
proof -
  have d: "''0123456789'' ! k \<in> set ''0123456789''" if "k < 10" for k
    using that by (intro nth_mem) simp
  show ?thesis
  proof (cases "n < 10")
    case True
    then show ?thesis by (subst (1 2) digits.simps) (simp add: d del: set_simps)
  next
    case False
    have "n mod 10 < 10" by simp
    then show ?thesis using False
      by (subst (1 2) digits.simps) (simp add: d del: set_simps)
  qed
qed

lemma fmt_int_last: "fmt_int i \<noteq> [] \<and> last (fmt_int i) \<in> set ''0123456789''"
  using digits_last by (simp add: fmt_int_def)

lemma found_message_last:
  "last (''command '' @ fmt_int i @ '' resubmitted as command '' @ fmt_int j) \<in> set ''0123456789''"
  using fmt_int_last [of j] by simp

lemma fresh_above_keys:
  assumes "\<forall>k \<in> dom (commands s). k \<le>s commandCounter s" and "commandCounter s \<noteq> MaxInt"
  shows "commandCounter s + 1 \<notin> dom (commands s)"
proof
  assume "commandCounter s + 1 \<in> dom (commands s)"
  with assms(1) have "sint (commandCounter s + 1) \<le> sint (commandCounter s)"
    by (auto simp: word_sle_eq)
  with assms(2) show False by (simp add: sint_succ)
qed

text \<open>
  C6 (amended). \<^verbatim>\<open>commandResubmit\<close> of an identifier \<open>i\<close> that is in the ledger, with
  command \<open>c\<close>, stores a command under the identifier that \<^verbatim>\<open>getCommandID\<close> allocates
  (the counter plus one): its \<open>Type\<close>, \<open>Record\<close>, \<open>Command\<close>, \<open>FilesSend\<close>, \<open>FilesRecv\<close>,
  \<open>LogLevel\<close>, \<open>LogPath\<close> and \<open>Filter\<close> are those of \<open>c\<close>, its \<open>checkedIn\<close> is empty, and
  \<open>ExpireClients\<close>, \<open>ExpireStarted\<close>, \<open>ExpireDuration\<close> and \<open>ExpireTime\<close> are zero (unset);
  all entries under other identifiers stay. When the allocated identifier is not yet a key
  of the ledger, the command is a new entry: the identifier differs from \<open>i\<close>, the original
  and every other entry are unchanged, and the ledger has one key more. That is so
  whenever no key of the ledger is greater than the counter and the counter is not the
  largest \<^verbatim>\<open>int\<close>. Of an identifier that is not in the ledger, \<^verbatim>\<open>commandResubmit\<close> returns the
  message \<^verbatim>\<open>command i not found\<close>, which differs from every message of a successful
  resubmission, and leaves the state (ledger and counter) unchanged.
\<close>

theorem commandResubmit_spec:
  "(commands s i = Some c \<longrightarrow>
      (let newid = fst (getCommandID s); s' = snd (commandResubmit i s) in
         newid = commandCounter s + 1
         \<and> commandCounter s' = newid
         \<and> commands s' newid =
             Some \<lparr>ID = newid, Type = Type c, Record = Record c, Command = Command c,
                   FilesSend = FilesSend c, FilesRecv = FilesRecv c, LogLevel = LogLevel c,
                   LogPath = LogPath c, Filter = Filter c, checkedIn = [],
                   ExpireClients = 0, ExpireStarted = 0, ExpireDuration = 0, ExpireTime = 0\<rparr>
         \<and> (\<forall>k. k \<noteq> newid \<longrightarrow> commands s' k = commands s k)
         \<and> fst (commandResubmit i s)
             = ''command '' @ fmt_int i @ '' resubmitted as command '' @ fmt_int newid
         \<and> (newid \<notin> dom (commands s) \<longrightarrow>
               newid \<noteq> i \<and> commands s' i = Some c
               \<and> dom (commands s') = insert newid (dom (commands s))
               \<and> (\<forall>k \<in> dom (commands s). commands s' k = commands s k))
         \<and> ((\<forall>k \<in> dom (commands s). k \<le>s commandCounter s) \<and> commandCounter s \<noteq> MaxInt
               \<longrightarrow> newid \<notin> dom (commands s))))
   \<and> (commands s i = None \<longrightarrow>
        commandResubmit i s = (''command '' @ fmt_int i @ '' not found'', s)
        \<and> (\<forall>(s2 :: state) j. commands s2 j \<noteq> None \<longrightarrow>
              fst (commandResubmit j s2) \<noteq> fst (commandResubmit i s)))"
proof (intro conjI impI)
  assume c: "commands s i = Some c"
  let ?newid = "fst (getCommandID s)"
  let ?s' = "snd (commandResubmit i s)"
  have n: "?newid = commandCounter s + 1" by (rule getCommandID_fst)
  have cnt: "commandCounter ?s' = ?newid"
    using c by (simp add: commandResubmit_def getCommandID_def Let_def)
  have new: "commands ?s' ?newid =
             Some \<lparr>ID = ?newid, Type = Type c, Record = Record c, Command = Command c,
                   FilesSend = FilesSend c, FilesRecv = FilesRecv c, LogLevel = LogLevel c,
                   LogPath = LogPath c, Filter = Filter c, checkedIn = [],
                   ExpireClients = 0, ExpireStarted = 0, ExpireDuration = 0, ExpireTime = 0\<rparr>"
    using c by (simp add: commandResubmit_def getCommandID_def Let_def)
  have other: "\<forall>k. k \<noteq> ?newid \<longrightarrow> commands ?s' k = commands s k"
    using c by (simp add: commandResubmit_def getCommandID_def Let_def)
  have msg: "fst (commandResubmit i s)
             = ''command '' @ fmt_int i @ '' resubmitted as command '' @ fmt_int ?newid"
    using c by (simp add: commandResubmit_def getCommandID_def Let_def)
  have fresh: "?newid \<noteq> i \<and> commands ?s' i = Some c
               \<and> dom (commands ?s') = insert ?newid (dom (commands s))
               \<and> (\<forall>k \<in> dom (commands s). commands ?s' k = commands s k)"
    if f: "?newid \<notin> dom (commands s)"
  proof (intro conjI ballI)
    show ne: "?newid \<noteq> i" using f c by auto
    then show "commands ?s' i = Some c" using other c by simp
    show "dom (commands ?s') = insert ?newid (dom (commands s))"
    proof (rule set_eqI)
      fix k
      show "k \<in> dom (commands ?s') \<longleftrightarrow> k \<in> insert ?newid (dom (commands s))"
        using other new by (cases "k = ?newid") (auto simp: domIff)
    qed
    fix k
    assume "k \<in> dom (commands s)"
    with f have "k \<noteq> ?newid" by auto
    with other show "commands ?s' k = commands s k" by simp
  qed
  have inv: "?newid \<notin> dom (commands s)"
    if "(\<forall>k \<in> dom (commands s). k \<le>s commandCounter s) \<and> commandCounter s \<noteq> MaxInt"
    using that fresh_above_keys [of s] by (simp add: n)
  from n cnt new other msg fresh inv
  show "let newid = fst (getCommandID s); s' = snd (commandResubmit i s) in
         newid = commandCounter s + 1
         \<and> commandCounter s' = newid
         \<and> commands s' newid =
             Some \<lparr>ID = newid, Type = Type c, Record = Record c, Command = Command c,
                   FilesSend = FilesSend c, FilesRecv = FilesRecv c, LogLevel = LogLevel c,
                   LogPath = LogPath c, Filter = Filter c, checkedIn = [],
                   ExpireClients = 0, ExpireStarted = 0, ExpireDuration = 0, ExpireTime = 0\<rparr>
         \<and> (\<forall>k. k \<noteq> newid \<longrightarrow> commands s' k = commands s k)
         \<and> fst (commandResubmit i s)
             = ''command '' @ fmt_int i @ '' resubmitted as command '' @ fmt_int newid
         \<and> (newid \<notin> dom (commands s) \<longrightarrow>
               newid \<noteq> i \<and> commands s' i = Some c
               \<and> dom (commands s') = insert newid (dom (commands s))
               \<and> (\<forall>k \<in> dom (commands s). commands s' k = commands s k))
         \<and> ((\<forall>k \<in> dom (commands s). k \<le>s commandCounter s) \<and> commandCounter s \<noteq> MaxInt
               \<longrightarrow> newid \<notin> dom (commands s))"
    unfolding Let_def by blast
next
  assume n: "commands s i = None"
  then show "commandResubmit i s = (''command '' @ fmt_int i @ '' not found'', s)"
    by (simp add: commandResubmit_def)
  show "\<forall>(s2 :: state) j. commands s2 j \<noteq> None \<longrightarrow>
          fst (commandResubmit j s2) \<noteq> fst (commandResubmit i s)"
  proof (intro allI impI)
    fix s2 :: state and j
    assume "commands s2 j \<noteq> None"
    then obtain c2 where "commands s2 j = Some c2" by auto
    then have "fst (commandResubmit j s2)
        = ''command '' @ fmt_int j @ '' resubmitted as command '' @ fmt_int (commandCounter s2 + 1)"
      by (simp add: commandResubmit_def getCommandID_def Let_def)
    then have "last (fst (commandResubmit j s2)) \<in> set ''0123456789''"
      using found_message_last by simp
    moreover have "last (fst (commandResubmit i s)) = CHR ''d''"
      using n by (simp add: commandResubmit_def)
    ultimately show "fst (commandResubmit j s2) \<noteq> fst (commandResubmit i s)"
      by auto
  qed
qed

theorem commandResubmit_spec_witness:
  "commands ledger5 5 = Some echo_hi
   \<and> dom (commands ledger5) = {5} \<and> 5 \<le>s commandCounter ledger5
   \<and> commandCounter ledger5 \<noteq> MaxInt
   \<and> commands (snd (commandResubmit 5 ledger5)) 6 =
        Some \<lparr>ID = 6, Type = COMMAND_EXEC, Record = False, Command = [''echo'', ''hi''],
              FilesSend = [], FilesRecv = [], LogLevel = [], LogPath = [], Filter = [],
              checkedIn = [], ExpireClients = 0, ExpireStarted = 0, ExpireDuration = 0,
              ExpireTime = 0\<rparr>
   \<and> commands (snd (commandResubmit 5 ledger5)) 5 = Some echo_hi
   \<and> dom (commands (snd (commandResubmit 5 ledger5))) = {6, 5}
   \<and> fst (commandResubmit 5 ledger5) = ''command 5 resubmitted as command 6''
   \<and> commands ledger5 9 = None
   \<and> commandResubmit 9 ledger5 = (''command 9 not found'', ledger5)"
proof -
  have a: "commands ledger5 5 = Some echo_hi" and b: "commands ledger5 9 = None"
    by (simp_all add: ledger5_def)
  have i1: "\<forall>k \<in> dom (commands ledger5). k \<le>s commandCounter ledger5"
    and i2: "commandCounter ledger5 \<noteq> MaxInt"
    by (simp_all add: ledger5_def MaxInt_def)
  have i0: "5 \<le>s commandCounter ledger5"
    by (simp add: ledger5_def)
  have n: "fst (getCommandID ledger5) = 6"
    by (simp add: getCommandID_def ledger5_def)
  have dm: "dom (commands ledger5) = {5}"
    by (simp add: ledger5_def)
  have f: "fmt_int 5 = ''5''" "fmt_int 6 = ''6''" "fmt_int 9 = ''9''"
    by (simp_all add: fmt_int_def digits.simps)
  note t = commandResubmit_spec [of ledger5 5 echo_hi, unfolded Let_def n]
  from t a have c: "commands (snd (commandResubmit 5 ledger5)) 6 =
        Some \<lparr>ID = 6, Type = COMMAND_EXEC, Record = False, Command = [''echo'', ''hi''],
              FilesSend = [], FilesRecv = [], LogLevel = [], LogPath = [], Filter = [],
              checkedIn = [], ExpireClients = 0, ExpireStarted = 0, ExpireDuration = 0,
              ExpireTime = 0\<rparr>"
    by (simp add: echo_hi_def)
  from t a f have d: "fst (commandResubmit 5 ledger5) = ''command 5 resubmitted as command 6''"
    by simp
  from t a i1 i2 have fr: "6 \<notin> dom (commands ledger5)" by blast
  with t a have g: "commands (snd (commandResubmit 5 ledger5)) 5 = Some echo_hi"
    and h: "dom (commands (snd (commandResubmit 5 ledger5))) = insert 6 (dom (commands ledger5))"
    by blast+
  from h dm have h': "dom (commands (snd (commandResubmit 5 ledger5))) = {6, 5}" by simp
  from commandResubmit_spec [of ledger5 9 echo_hi] b f
  have e: "commandResubmit 9 ledger5 = (''command 9 not found'', ledger5)"
    by simp
  from a dm i0 i2 c g h' d b e show ?thesis by blast
qed

text \<open>
  As stated, C6 fails where the allocated identifier is already in the ledger: the
  merge processor stores commands without advancing the counter, so after a map with
  command 1 is merged into the initial state and a client has checked in, resubmitting 1
  allocates 1 again and overwrites the original with its checkin log; no new command is
  created.
\<close>

theorem commandResubmit_reuse_counterexample:
  "commands merged1 1 = Some (peer1\<lparr>checkedIn := [101]\<rparr>)
   \<and> fst (commandResubmit 1 merged1) = ''command 1 resubmitted as command 1''
   \<and> commands (snd (commandResubmit 1 merged1)) 1 = Some peer1
   \<and> dom (commands (snd (commandResubmit 1 merged1))) = dom (commands merged1)"
  by (simp add: merged1_def commandCheckIn_def updateCommand_def s0_def commandResubmit_def
      getCommandID_def Let_def peer1_def peer7_def fmt_int_def digits.simps COMMAND_EXEC_def)

subsection \<open>Encoder\<close>

lemma gob_fields_checkedIn: "gob_fields (v\<lparr>checkedIn := l\<rparr>) = gob_fields v"
  by (simp add: gob_fields_def)

text \<open>
  C8. For two ledger states that hold the same commands at the same keys except for
  the \<^verbatim>\<open>checkedIn\<close> logs, \<^verbatim>\<open>encodeCommands\<close> returns the same bytes, whatever the encoder
  does with the exported fields it reads; so whatever decodes them (\<open>decode\<close>) yields the
  same command map. The checkin logs have no influence on what is sent.
\<close>

theorem encodeCommands_ignores_checkedIn:
  "(\<forall>k. rel_option (\<lambda>v w. w = v\<lparr>checkedIn := checkedIn w\<rparr>) (commands s1 k) (commands s2 k))
   \<longrightarrow> encodeCommands gob s1 = encodeCommands gob s2
       \<and> decode (encodeCommands gob s1) = decode (encodeCommands gob s2)"
proof (intro impI)
  assume a: "\<forall>k. rel_option (\<lambda>v w. w = v\<lparr>checkedIn := checkedIn w\<rparr>) (commands s1 k) (commands s2 k)"
  have "map_option gob_fields (commands s1 k) = map_option gob_fields (commands s2 k)" for k
  proof (cases "commands s1 k")
    case None
    with a [rule_format, of k] show ?thesis by (cases "commands s2 k") simp_all
  next
    case (Some v)
    with a [rule_format, of k] obtain w where w: "commands s2 k = Some w"
      and "w = v\<lparr>checkedIn := checkedIn w\<rparr>"
      by (cases "commands s2 k") simp_all
    then have "gob_fields w = gob_fields v"
      by (metis gob_fields_checkedIn)
    with Some w show ?thesis by simp
  qed
  then have "(\<lambda>k. map_option gob_fields (commands s1 k)) = (\<lambda>k. map_option gob_fields (commands s2 k))"
    by (rule ext)
  then have "encodeCommands gob s1 = encodeCommands gob s2"
    by (simp add: encodeCommands_def)
  then show "encodeCommands gob s1 = encodeCommands gob s2
       \<and> decode (encodeCommands gob s1) = decode (encodeCommands gob s2)"
    by simp
qed

theorem encodeCommands_ignores_checkedIn_witness:
  "(\<forall>k. rel_option (\<lambda>v w. w = v\<lparr>checkedIn := checkedIn w\<rparr>)
          (commands ledger7 k) (commands (ledger7\<lparr>commands := [7 \<mapsto> local7\<lparr>checkedIn := []\<rparr>]\<rparr>) k))
   \<and> encodeCommands sample_gob ledger7 = [7, 0]
   \<and> encodeCommands sample_gob (ledger7\<lparr>commands := [7 \<mapsto> local7\<lparr>checkedIn := []\<rparr>]\<rparr>) = [7, 0]"
proof -
  let ?s2 = "ledger7\<lparr>commands := [7 \<mapsto> local7\<lparr>checkedIn := []\<rparr>]\<rparr>"
  have a: "\<forall>k. rel_option (\<lambda>v w. w = v\<lparr>checkedIn := checkedIn w\<rparr>)
          (commands ledger7 k) (commands ?s2 k)"
    by (simp add: ledger7_def)
  have b: "encodeCommands sample_gob ?s2 = [7, 0]"
    by (simp add: encodeCommands_def sample_gob_def gob_fields_def local7_def peer7_def)
  from encodeCommands_ignores_checkedIn [of ledger7 ?s2 sample_gob id] a b
  have "encodeCommands sample_gob ledger7 = [7, 0]" by simp
  with a b show ?thesis by blast
qed

subsection \<open>New commands\<close>

lemma handleNewCommand_created:
  "handleNewCommand lib zone now started r s = (Submitted i, s') \<Longrightarrow>
   \<exists>c. commands s' i = Some c \<and> checkedIn c = []
     \<and> ExpireClients c = (case Atoi lib (r ''expire_responses'') of Some n \<Rightarrow> n | None \<Rightarrow> 0)
     \<and> ExpireDuration c = (case ParseDuration lib (r ''expire_duration'') of Some d \<Rightarrow> d | None \<Rightarrow> 0)
     \<and> ExpireTime c = (case ParseKitchen lib (r ''expire_time'') of
                         Some (h, m, sec) \<Rightarrow> Date_today zone now h m sec
                       | None \<Rightarrow> Date_today zone now 0 0 0)"
  unfolding handleNewCommand_def Let_def store_def getCommandID_def
  by (auto split: if_splits option.splits prod.splits)

lemma Date_today_midnight:
  assumes "\<bar>zone\<bar> < nsPerDay" and "nsPerDay \<le> now + zone"
  shows "Date_today zone now 0 0 0 \<noteq> 0 \<and> Date_today zone now 0 0 0 \<le> now"
proof -
  have pos: "0 < nsPerDay" by (simp add: nsPerDay_def)
  let ?q = "(now + zone) div nsPerDay"
  have "0 < ?q" using assms(2) pos by (simp add: pos_imp_zdiv_pos_iff)
  then have "1 \<le> ?q" by simp
  then have "1 * nsPerDay \<le> ?q * nsPerDay" using pos by (intro mult_right_mono) simp_all
  then have "nsPerDay \<le> ?q * nsPerDay" by simp
  moreover have "?q * nsPerDay \<le> now + zone"
  proof -
    have "?q * nsPerDay + (now + zone) mod nsPerDay = now + zone"
      by (rule div_mult_mod_eq)
    moreover have "0 \<le> (now + zone) mod nsPerDay"
      using pos by (rule pos_mod_sign)
    ultimately show ?thesis by linarith
  qed
  ultimately show ?thesis using assms(1) by (simp add: Date_today_def)
qed

text \<open>
  C1 (what the code does instead). A command created from a request whose
  \<^verbatim>\<open>expire_time\<close> field is empty or does not parse (and whose other two expiry fields are
  empty or do not parse) does not have its absolute-time expiry disabled:
  \<^verbatim>\<open>time.Date\<close> is applied to the zero time that \<^verbatim>\<open>time.Parse\<close> returned, so
  \<open>ExpireTime\<close> is the start of the current local day, which is not the zero time and is
  not after \<open>now\<close>. Any tick of the reaper after \<open>now\<close> removes the command. (Zone offsets
  are less than a day, and \<open>now\<close> is past the first day of year 1.)
\<close>

theorem handleNewCommand_blank_expire_time:
  "handleNewCommand lib zone now started r s = (Submitted i, s')
   \<and> ParseKitchen lib (r ''expire_time'') = None
   \<and> Atoi lib (r ''expire_responses'') = None
   \<and> ParseDuration lib (r ''expire_duration'') = None
   \<and> \<bar>zone\<bar> < nsPerDay \<and> nsPerDay \<le> now + zone \<and> now < now' \<and> i \<in> set ks
   \<longrightarrow> (\<exists>c. commands s' i = Some c
          \<and> ExpireTime c = Date_today zone now 0 0 0
          \<and> \<not> IsZero (ExpireTime c) \<and> ExpireTime c \<le> now)
       \<and> commands (expireReaper now' clock ks s') i = None"
proof (intro impI)
  assume a: "handleNewCommand lib zone now started r s = (Submitted i, s')
   \<and> ParseKitchen lib (r ''expire_time'') = None
   \<and> Atoi lib (r ''expire_responses'') = None
   \<and> ParseDuration lib (r ''expire_duration'') = None
   \<and> \<bar>zone\<bar> < nsPerDay \<and> nsPerDay \<le> now + zone \<and> now < now' \<and> i \<in> set ks"
  then obtain c where c: "commands s' i = Some c"
    and ec: "ExpireClients c = 0" and ed: "ExpireDuration c = 0"
    and et: "ExpireTime c = Date_today zone now 0 0 0"
    using handleNewCommand_created [of lib zone now started r s i s'] by auto
  from a have m: "Date_today zone now 0 0 0 \<noteq> 0 \<and> Date_today zone now 0 0 0 \<le> now"
    by (simp add: Date_today_midnight)
  with a et have "expired now' (clock i) c"
    by (simp add: expired_def ec ed IsZero_def After_def)
  with a c have "commands (expireReaper now' clock ks s') i = None"
    by (simp add: expireReaper_def reap_entry)
  with c et m
  show "(\<exists>c. commands s' i = Some c
          \<and> ExpireTime c = Date_today zone now 0 0 0
          \<and> \<not> IsZero (ExpireTime c) \<and> ExpireTime c \<le> now)
       \<and> commands (expireReaper now' clock ks s') i = None"
    by (simp add: IsZero_def)
qed

theorem handleNewCommand_blank_expire_time_witness:
  "fst (handleNewCommand sample_lib 0 noon noon blank_exec s0) = Submitted 1
   \<and> ParseKitchen sample_lib (blank_exec ''expire_time'') = None
   \<and> (\<exists>c. commands (snd (handleNewCommand sample_lib 0 noon noon blank_exec s0)) 1 = Some c
          \<and> ExpireTime c = 63839664000000000000)
   \<and> commands (expireReaper (noon + 1000000000) (\<lambda>k. noon + 1000000000) [1]
        (snd (handleNewCommand sample_lib 0 noon noon blank_exec s0))) 1 = None"
proof -
  let ?s' = "snd (handleNewCommand sample_lib 0 noon noon blank_exec s0)"
  have r: "handleNewCommand sample_lib 0 noon noon blank_exec s0 = (Submitted 1, ?s')"
    by (simp add: handleNewCommand_def blank_exec_def sample_lib_def s0_def getCommandID_def
        store_def Let_def)
  have p: "ParseKitchen sample_lib (blank_exec ''expire_time'') = None"
    "Atoi sample_lib (blank_exec ''expire_responses'') = None"
    "ParseDuration sample_lib (blank_exec ''expire_duration'') = None"
    by (simp_all add: blank_exec_def sample_lib_def)
  have z: "\<bar>0 :: int\<bar> < nsPerDay" "nsPerDay \<le> noon + 0" "noon < noon + 1000000000"
    "(1 :: goint) \<in> set [1]"
    by (simp_all add: nsPerDay_def noon_def)
  have d: "Date_today 0 noon 0 0 0 = 63839664000000000000"
    by (simp add: Date_today_def noon_def nsPerDay_def)
  from handleNewCommand_blank_expire_time [of sample_lib 0 noon noon blank_exec s0 1 ?s'
      "noon + 1000000000" "[1]" "\<lambda>k. noon + 1000000000"] r p z
  have "(\<exists>c. commands ?s' 1 = Some c \<and> ExpireTime c = Date_today 0 noon 0 0 0
          \<and> \<not> IsZero (ExpireTime c) \<and> ExpireTime c \<le> noon)
       \<and> commands (expireReaper (noon + 1000000000) (\<lambda>k. noon + 1000000000) [1] ?s') 1 = None"
    by blast
  moreover from r have "fst (handleNewCommand sample_lib 0 noon noon blank_exec s0) = Submitted 1"
    by (metis fst_conv)
  ultimately show ?thesis using d p by auto
qed


end
